theory Spec2Isabelle
  imports Complex_Main
begin

section \<open>Values, errors and door records\<close>

text \<open>
  The door detector passes door records around as Python dictionaries from field names to
  values. A record is modelled as a map from strings to the values that occur in them.
  Python floats are modelled as reals (no rounding error, no overflow), Python and numpy
  integers as unbounded integers.
\<close>

datatype py_value =
    Box int int int int
  | Num real
  | IntV int
  | Flag bool
  | Str string

datatype py_error =
    KeyError
  | TypeError
  | ZeroDivisionError
  | IndexError
  | FileNotFoundError
  | ExternalError

type_synonym door = "string \<rightharpoonup> py_value"

text \<open>\<^verbatim>\<open>x1, y1, x2, y2 = door["bbox"]\<close>: a missing key raises, and so does a value that
  does not unpack into four numbers.\<close>

definition bbox_of :: "door \<Rightarrow> py_error + (int \<times> int \<times> int \<times> int)" where
  "bbox_of door =
     (case door ''bbox'' of
        None \<Rightarrow> Inl KeyError
      | Some (Box x1 y1 x2 y2) \<Rightarrow> Inr (x1, y1, x2, y2)
      | Some _ \<Rightarrow> Inl TypeError)"

text \<open>Python's \<^verbatim>\<open>round(x, 1)\<close> on a float: the nearest multiple of one tenth, a tie going to
  the even neighbour.\<close>

definition py_round :: "real \<Rightarrow> int" where
  "py_round x =
     (let f = \<lfloor>x\<rfloor>; d = x - of_int f
      in if d < 1 / 2 then f
         else if 1 / 2 < d then f + 1
         else if even f then f else f + 1)"

definition round1 :: "real \<Rightarrow> real" where
  "round1 x = of_int (py_round (x * 10)) / 10"

section \<open>Baseline measurement (measurement.py, door\_width\_mm)\<close>

definition door_width_mm :: "door \<Rightarrow> real \<Rightarrow> real \<Rightarrow> py_error + door" where
  "door_width_mm door mm_per_px min_width_mm =
     (case bbox_of door of
        Inl e \<Rightarrow> Inl e
      | Inr (x1, y1, x2, y2) \<Rightarrow>
          (let width_px = \<bar>x2 - x1\<bar>;
               height_px = \<bar>y2 - y1\<bar>;
               leaf_width_px = min width_px height_px;
               width_mm = of_int leaf_width_px * mm_per_px
           in Inr (door(''width_mm'' \<mapsto> Num (round1 width_mm),
                        ''is_compliant'' \<mapsto> Flag (min_width_mm \<le> width_mm)))))"

section \<open>Refined measurement (measurement.py, refine\_door\_measurement)\<close>

text \<open>
  An image is seen through what the code reads from it: its shape, and, for the crop that
  a bounding box selects, what OpenCV computes there. \<open>region_moments\<close> gives the central
  moments (mu20, mu02, mu11) of the eroded, adaptively thresholded crop, and
  \<open>region_contours\<close> gives, for every external contour of the thresholded crop, its area
  and the side lengths of its minimum-area rectangle.
\<close>

record image =
  rows :: nat
  cols :: nat
  region_moments :: "int \<times> int \<times> int \<times> int \<Rightarrow> real \<times> real \<times> real"
  region_contours :: "int \<times> int \<times> int \<times> int \<Rightarrow> (real \<times> real \<times> real) list"

text \<open>The extent of the slice \<^verbatim>\<open>a[start:stop]\<close> of an axis of length \<open>n\<close>: a negative
  index counts from the end, and both ends are clipped to the axis.\<close>

definition adjust_index :: "nat \<Rightarrow> int \<Rightarrow> int" where
  "adjust_index n i =
     (if i < 0 then (if i + int n < 0 then 0 else i + int n)
      else if int n \<le> i then int n else i)"

definition slice_len :: "nat \<Rightarrow> int \<Rightarrow> int \<Rightarrow> nat" where
  "slice_len n start stop =
     (let s = adjust_index n start; e = adjust_index n stop
      in if s < e then nat (e - s) else 0)"

text \<open>numpy's \<^verbatim>\<open>arctan2\<close>, \<^verbatim>\<open>degrees\<close> and the float remainder \<^verbatim>\<open>%\<close>, which takes the
  sign of the divisor.\<close>

definition arctan2 :: "real \<Rightarrow> real \<Rightarrow> real" where
  "arctan2 y x =
     (if 0 < x then arctan (y / x)
      else if x < 0 then (if 0 \<le> y then arctan (y / x) + pi else arctan (y / x) - pi)
      else if 0 < y then pi / 2
      else if y < 0 then - pi / 2
      else 0)"

definition degrees :: "real \<Rightarrow> real" where
  "degrees a = a * 180 / pi"

definition float_mod :: "real \<Rightarrow> real \<Rightarrow> real" where
  "float_mod x m = x - m * of_int \<lfloor>x / m\<rfloor>"

text \<open>\<^verbatim>\<open>max(contours, key=cv2.contourArea)\<close>: the first contour of the largest area.\<close>

fun max_by_area :: "(real \<times> real \<times> real) \<Rightarrow> (real \<times> real \<times> real) list \<Rightarrow> (real \<times> real \<times> real)" where
  "max_by_area best [] = best"
| "max_by_area best (c # cs) = max_by_area (if fst best < fst c then c else best) cs"

text \<open>The orientation \<^verbatim>\<open>angle_deg\<close> that the moments (mu20, mu02, mu11) give.\<close>

definition orientation_deg :: "real \<times> real \<times> real \<Rightarrow> real" where
  "orientation_deg m =
     (case m of (mu20, mu02, mu11) \<Rightarrow>
        (let angle = 0.5 * arctan2 (2 * mu11) (mu20 - mu02)
         in float_mod (degrees angle) 180))"

text \<open>The pixel width \<^verbatim>\<open>width_px\<close> for an orientation, the shape of the crop and the
  contours of the thresholded crop.\<close>

definition refined_width_px :: "real \<Rightarrow> nat \<times> nat \<Rightarrow> (real \<times> real \<times> real) list \<Rightarrow> real" where
  "refined_width_px angle_deg shape contours =
     (let width_px = (if \<bar>angle_deg - 90\<bar> < 45 then real (snd shape) else real (fst shape))
      in if (15 < angle_deg \<and> angle_deg < 75) \<or> (105 < angle_deg \<and> angle_deg < 165)
         then (case contours of
                 [] \<Rightarrow> width_px
               | c # cs \<Rightarrow> (case max_by_area c cs of (area, rw, rh) \<Rightarrow> min rw rh))
         else width_px)"

definition refine_door_measurement :: "image \<Rightarrow> door \<Rightarrow> real \<Rightarrow> real \<Rightarrow> py_error + door" where
  "refine_door_measurement img door mm_per_px min_width_mm =
     (case bbox_of door of
        Inl e \<Rightarrow> Inl e
      | Inr (x1, y1, x2, y2) \<Rightarrow>
          (let shape = (slice_len (rows img) y1 y2, slice_len (cols img) x1 x2)
           in if fst shape * snd shape = 0 then door_width_mm door mm_per_px min_width_mm
              else
                (case region_moments img (x1, y1, x2, y2) of (mu20, mu02, mu11) \<Rightarrow>
                   if mu20 + mu02 = 0 then door_width_mm door mm_per_px min_width_mm
                   else
                     (let angle_deg = orientation_deg (mu20, mu02, mu11);
                          width_px = refined_width_px angle_deg shape
                                       (region_contours img (x1, y1, x2, y2));
                          width_mm = width_px * mm_per_px
                      in Inr (door(''width_mm'' \<mapsto> Num (round1 width_mm),
                                   ''is_compliant'' \<mapsto> Flag (min_width_mm \<le> width_mm),
                                   ''angle_deg'' \<mapsto> Num (round1 angle_deg)))))))"

section \<open>Reporting (reporting.py)\<close>

text \<open>\<^verbatim>\<open>door.get(key, default)\<close>.\<close>

definition get_or :: "door \<Rightarrow> string \<Rightarrow> py_value \<Rightarrow> py_value" where
  "get_or door key dflt = (case door key of None \<Rightarrow> dflt | Some v \<Rightarrow> v)"

text \<open>The row that \<^verbatim>\<open>create_csv_report\<close> writes for one door, under the field names
  page, x, y, width\_mm, angle\_deg, is\_compliant.\<close>

definition csv_row :: "door \<Rightarrow> py_error + door" where
  "csv_row door =
     (case bbox_of door of
        Inl e \<Rightarrow> Inl e
      | Inr (x1, y1, x2, y2) \<Rightarrow>
          Inr [''page'' \<mapsto> get_or door ''page'' (Str []),
               ''x'' \<mapsto> IntV x1,
               ''y'' \<mapsto> IntV y1,
               ''width_mm'' \<mapsto> get_or door ''width_mm'' (IntV 0),
               ''angle_deg'' \<mapsto> get_or door ''angle_deg'' (IntV 0),
               ''is_compliant'' \<mapsto> get_or door ''is_compliant'' (Flag False)])"

text \<open>The record that \<^verbatim>\<open>create_summary_dataframe\<close> builds for one door.\<close>

definition summary_record :: "door \<Rightarrow> py_error + door" where
  "summary_record door =
     (case bbox_of door of
        Inl e \<Rightarrow> Inl e
      | Inr (x1, y1, x2, y2) \<Rightarrow>
          Inr [''page'' \<mapsto> get_or door ''page'' (Str []),
               ''x'' \<mapsto> IntV x1,
               ''y'' \<mapsto> IntV y1,
               ''width_px'' \<mapsto> IntV \<bar>x2 - x1\<bar>,
               ''height_px'' \<mapsto> IntV \<bar>y2 - y1\<bar>,
               ''width_mm'' \<mapsto> get_or door ''width_mm'' (IntV 0),
               ''angle_deg'' \<mapsto> get_or door ''angle_deg'' (IntV 0),
               ''is_compliant'' \<mapsto> get_or door ''is_compliant'' (Flag False),
               ''confidence'' \<mapsto> get_or door ''confidence'' (Num 1)])"

section \<open>Regular expressions as the scale detector uses them\<close>

text \<open>
  The patterns of scale\_detection.py use character classes, greedy repetition of a class,
  sequencing, ordered alternation, an optional part and capture groups. The matcher below
  follows the backtracking search of Python's \<^verbatim>\<open>re\<close>: a repetition takes as many
  characters as it can and gives them back one at a time, an alternation tries its branches
  from left to right, and the first way through the whole pattern is the match. The
  continuation \<open>k\<close> is the rest of the pattern; the captured groups are collected in the order
  in which they close. Text is a string of 8-bit characters.
\<close>

datatype regex =
    Eps
  | Chr "char \<Rightarrow> bool"
  | Star "char \<Rightarrow> bool"
  | Seq regex regex
  | Alt regex regex
  | Opt regex
  | Group regex

fun star_match :: "(char \<Rightarrow> bool) \<Rightarrow> string \<Rightarrow> (string \<Rightarrow> 'a option) \<Rightarrow> 'a option" where
  "star_match p [] k = k []"
| "star_match p (c # cs) k =
     (if p c
      then (case star_match p cs k of Some r \<Rightarrow> Some r | None \<Rightarrow> k (c # cs))
      else k (c # cs))"

fun rmatch :: "regex \<Rightarrow> string \<Rightarrow> string list \<Rightarrow> (string \<Rightarrow> string list \<Rightarrow> 'a option) \<Rightarrow> 'a option" where
  "rmatch Eps s g k = k s g"
| "rmatch (Chr p) s g k = (case s of [] \<Rightarrow> None | c # cs \<Rightarrow> if p c then k cs g else None)"
| "rmatch (Star p) s g k = star_match p s (\<lambda>s'. k s' g)"
| "rmatch (Seq a b) s g k = rmatch a s g (\<lambda>s' g'. rmatch b s' g' k)"
| "rmatch (Alt a b) s g k = (case rmatch a s g k of Some r \<Rightarrow> Some r | None \<Rightarrow> rmatch b s g k)"
| "rmatch (Opt a) s g k = (case rmatch a s g k of Some r \<Rightarrow> Some r | None \<Rightarrow> k s g)"
| "rmatch (Group a) s g k = rmatch a s g (\<lambda>s' g'. k s' (g' @ [take (length s - length s') s]))"

text \<open>A match of the pattern at the start of the text: the groups and the text left over.\<close>

definition match_here :: "regex \<Rightarrow> string \<Rightarrow> (string list \<times> string) option" where
  "match_here r s = rmatch r s [] (\<lambda>s' g. Some (g, s'))"

text \<open>\<^verbatim>\<open>re.search\<close>: the match at the leftmost position that has one.\<close>

fun search :: "regex \<Rightarrow> string \<Rightarrow> string list option" where
  "search r [] = map_option fst (match_here r [])"
| "search r (c # cs) =
     (case match_here r (c # cs) of
        Some m \<Rightarrow> Some (fst m)
      | None \<Rightarrow> search r cs)"

text \<open>\<^verbatim>\<open>re.findall\<close> for a pattern that matches no empty string: the groups of the
  successive matches from left to right, each search resuming where the previous match
  ended. \<open>skip\<close> counts the characters of the last match still to be passed over.\<close>

fun findall_from :: "regex \<Rightarrow> nat \<Rightarrow> string \<Rightarrow> string list list" where
  "findall_from r skip [] = []"
| "findall_from r (Suc n) (c # cs) = findall_from r n cs"
| "findall_from r 0 (c # cs) =
     (case match_here r (c # cs) of
        None \<Rightarrow> findall_from r 0 cs
      | Some (g, rest) \<Rightarrow> g # findall_from r (length cs - length rest) cs)"

definition findall :: "regex \<Rightarrow> string \<Rightarrow> string list list" where
  "findall r s = findall_from r 0 s"

definition is_char :: "char \<Rightarrow> char \<Rightarrow> bool" where
  "is_char c x = (x = c)"

definition one_of :: "string \<Rightarrow> char \<Rightarrow> bool" where
  "one_of cs x = (x \<in> set cs)"

text \<open>\<^verbatim>\<open>\d\<close> and \<^verbatim>\<open>\s\<close> on 8-bit characters: the decimal digits, and the characters that
  Python counts as white space (tab to carriage return, the four separators 0x1C to 0x1F,
  the space, NEL and the no-break space).\<close>

definition digit :: "char \<Rightarrow> bool" where
  "digit = one_of ''0123456789''"

definition space :: "char \<Rightarrow> bool" where
  "space = one_of [CHR 0x09, CHR 0x0A, CHR 0x0B, CHR 0x0C, CHR 0x0D,
                   CHR 0x1C, CHR 0x1D, CHR 0x1E, CHR 0x1F, CHR 0x20, CHR 0x85, CHR 0xA0]"

definition Plus :: "(char \<Rightarrow> bool) \<Rightarrow> regex" where
  "Plus p = Seq (Chr p) (Star p)"

fun seqs :: "regex list \<Rightarrow> regex" where
  "seqs [] = Eps"
| "seqs [r] = r"
| "seqs (r # rs) = Seq r (seqs rs)"

fun alts :: "regex list \<Rightarrow> regex" where
  "alts [] = Eps"
| "alts [r] = r"
| "alts (r # rs) = Alt r (alts rs)"

definition Lit :: "string \<Rightarrow> regex" where
  "Lit s = seqs (map (\<lambda>c. Chr (is_char c)) s)"

text \<open>\<^verbatim>\<open>float(s)\<close> for the texts that the groups capture: decimal digits, with an optional
  point and further digits.\<close>

definition digit_val :: "char \<Rightarrow> nat" where
  "digit_val c = length (takeWhile (\<lambda>d. d \<noteq> c) ''0123456789'')"

definition nat_of_digits :: "string \<Rightarrow> nat" where
  "nat_of_digits s = foldl (\<lambda>a c. 10 * a + digit_val c) 0 s"

definition float_of :: "string \<Rightarrow> real" where
  "float_of s =
     (let ip = takeWhile (\<lambda>c. c \<noteq> CHR ''.'') s;
          fp = drop (Suc (length ip)) s
      in real (nat_of_digits ip) + real (nat_of_digits fp) / 10 ^ length fp)"

text \<open>Float division raises on a zero divisor.\<close>

definition fdiv :: "real \<Rightarrow> real \<Rightarrow> py_error + real" where
  "fdiv a b = (if b = 0 then Inl ZeroDivisionError else Inr (a / b))"

section \<open>Scale from text (scale\_detection.py, find\_numeric\_scale\_text)\<close>

text \<open>The three patterns, in the order in which the code tries them:
  \<^verbatim>\<open>1\s*[:]\s*(\d+)\<close>, \<^verbatim>\<open>(\d+)/(\d+)["\']\s*=\s*(\d+)[\'"]\<close> and \<^verbatim>\<open>1\s*/\s*(\d+)\<close>.\<close>

definition ratio_pattern :: regex where
  "ratio_pattern =
     seqs [Chr (is_char CHR ''1''), Star space, Chr (one_of '':''), Star space, Group (Plus digit)]"

definition quote :: "char \<Rightarrow> bool" where
  "quote = one_of [CHR 0x22, CHR 0x27]"

definition feet_pattern :: regex where
  "feet_pattern =
     seqs [Group (Plus digit), Chr (is_char CHR ''/''), Group (Plus digit), Chr quote,
           Star space, Chr (is_char CHR ''=''), Star space, Group (Plus digit), Chr quote]"

definition fraction_pattern :: regex where
  "fraction_pattern =
     seqs [Chr (is_char CHR ''1''), Star space, Chr (is_char CHR ''/''), Star space, Group (Plus digit)]"

text \<open>The function from the recognised text on: the text is what Tesseract returns for the
  binarised page. \<^verbatim>\<open>match.group(i)\<close> reads the i-th captured text; the patterns have one
  and three groups.\<close>

definition find_numeric_scale_text :: "string \<Rightarrow> py_error + real option" where
  "find_numeric_scale_text text =
     (case search ratio_pattern text of
        Some g \<Rightarrow>
          (case g of
             [n] \<Rightarrow> map_sum id Some (fdiv 1 (float_of n))
           | _ \<Rightarrow> Inl IndexError)
      | None \<Rightarrow>
     (case search feet_pattern text of
        Some g \<Rightarrow>
          (case g of
             [a, b, f] \<Rightarrow>
               (let numerator = float_of a; denominator = float_of b; feet = float_of f
                in case fdiv numerator denominator of
                     Inl e \<Rightarrow> Inl e
                   | Inr inch_scale \<Rightarrow>
                       (case fdiv (feet * 12) inch_scale of
                          Inl e \<Rightarrow> Inl e
                        | Inr feet_in_drawing_units \<Rightarrow>
                            map_sum id Some (fdiv 1 feet_in_drawing_units)))
           | _ \<Rightarrow> Inl IndexError)
      | None \<Rightarrow>
     (case search fraction_pattern text of
        Some g \<Rightarrow>
          (case g of
             [n] \<Rightarrow> map_sum id Some (fdiv 1 (float_of n))
           | _ \<Rightarrow> Inl IndexError)
      | None \<Rightarrow> Inr None)))"

section \<open>Scale from a graphic scale bar (scale\_detection.py)\<close>

definition convert_to_mm :: "real \<Rightarrow> string \<Rightarrow> real option" where
  "convert_to_mm v unit =
     (if unit = ''mm'' then Some v
      else if unit = ''cm'' then Some (v * 10)
      else if unit = ''m'' then Some (v * 1000)
      else if unit = ''ft'' \<or> unit = [CHR 0x27] then Some (v * 304.8)
      else if unit = ''in'' \<or> unit = [CHR 0x22] then Some (v * 25.4)
      else None)"

text \<open>The label pattern \<^verbatim>\<open>(\d+(?:\.\d+)?)\s*(m|mm|cm|ft|\')\<close>, its alternatives in the
  order of the source.\<close>

definition label_pattern :: regex where
  "label_pattern =
     seqs [Group (Seq (Plus digit) (Opt (Seq (Chr (is_char CHR ''.'')) (Plus digit)))),
           Star space,
           Group (alts [Lit ''m'', Lit ''mm'', Lit ''cm'', Lit ''ft'', Lit [CHR 0x27]])]"

text \<open>
  What the scale detector reads from a page: the shape of the grey image, the text that
  Tesseract recognises on the binarised page, the segments of the probabilistic Hough
  transform (\<open>None\<close> when it finds none), and the text that Tesseract recognises in the
  band \<^verbatim>\<open>gray[y:y+h, x:x+w]\<close>, given as \<open>band_text y h x w\<close>.
\<close>

record scale_view =
  gray_rows :: nat
  gray_cols :: nat
  page_text :: string
  hough_segments :: "(int \<times> int \<times> int \<times> int) list option"
  band_text :: "int \<Rightarrow> int \<Rightarrow> int \<Rightarrow> int \<Rightarrow> string"

text \<open>The horizontal segments longer than 50 pixels, each with its length.\<close>

definition horizontal_lines :: "(int \<times> int \<times> int \<times> int) list \<Rightarrow> (int \<times> int \<times> int \<times> int \<times> int) list" where
  "horizontal_lines lines =
     concat (map (\<lambda>(x1, y1, x2, y2).
                    if \<bar>y2 - y1\<bar> < 5 \<and> 50 < \<bar>x2 - x1\<bar> then [(x1, y1, x2, y2, \<bar>x2 - x1\<bar>)] else [])
                 lines)"

text \<open>\<^verbatim>\<open>sort(key=..., reverse=True)\<close> is stable: among equal lengths the earlier line stays
  first.\<close>

definition sort_longest_first :: "(int \<times> int \<times> int \<times> int \<times> int) list \<Rightarrow> (int \<times> int \<times> int \<times> int \<times> int) list" where
  "sort_longest_first ls = sort_key (\<lambda>(x1, y1, x2, y2, len). - len) ls"

text \<open>The scale that one candidate line gives, or \<open>None\<close> when the loop moves on to the
  next line.\<close>

definition candidate_scale :: "scale_view \<Rightarrow> (int \<times> int \<times> int \<times> int \<times> int) \<Rightarrow> real option" where
  "candidate_scale v line =
     (case line of (x1, y1, x2, y2, len) \<Rightarrow>
        (let text_region_y = max 0 (y1 - 20);
             text_region_height = 40;
             text_region_width = len + 40;
             text_region_x = max 0 (x1 - 20)
         in if slice_len (gray_rows v) text_region_y (text_region_y + text_region_height)
               * slice_len (gray_cols v) text_region_x (text_region_x + text_region_width) = 0
            then None
            else
              (let text = band_text v text_region_y text_region_height text_region_x text_region_width;
                   matches = findall label_pattern text
               in if 2 \<le> length matches
                  then (case (hd matches, last matches) of
                          ([first_val, first_unit], [last_val, last_unit]) \<Rightarrow>
                            (case (convert_to_mm (float_of first_val) first_unit,
                                   convert_to_mm (float_of last_val) last_unit) of
                               (Some first_mm, Some last_mm) \<Rightarrow>
                                 (let px_distance = len;
                                      mm_distance = \<bar>last_mm - first_mm\<bar>
                                  in if 0 < mm_distance
                                     then Some (mm_distance / of_int px_distance)
                                     else None)
                             | _ \<Rightarrow> None)
                        | _ \<Rightarrow> None)
                  else None)))"

fun first_scale :: "scale_view \<Rightarrow> (int \<times> int \<times> int \<times> int \<times> int) list \<Rightarrow> real option" where
  "first_scale v [] = None"
| "first_scale v (line # rest) =
     (case candidate_scale v line of
        Some s \<Rightarrow> Some s
      | None \<Rightarrow> first_scale v rest)"

definition find_graphic_scale_bar :: "scale_view \<Rightarrow> py_error + real option" where
  "find_graphic_scale_bar v =
     (case hough_segments v of
        None \<Rightarrow> Inr None
      | Some lines \<Rightarrow>
          (let hs = horizontal_lines lines
           in if hs = [] then Inr None
              else Inr (first_scale v (take 5 (sort_longest_first hs)))))"


section \<open>The page loop (cli.py, DoorDetectorPipeline.process\_pdf)\<close>







section \<open>Template matching (door\_detection.py, TemplateDoorDetector)\<close>

type_synonym box = "int \<times> int \<times> int \<times> int"

definition box_overlap :: "box \<Rightarrow> box \<Rightarrow> bool" where
  "box_overlap box1 box2 =
     (case (box1, box2) of ((x1_1, y1_1, x2_1, y2_1), (x1_2, y1_2, x2_2, y2_2)) \<Rightarrow>
        (let x_left = max x1_1 x1_2;
             y_top = max y1_1 y1_2;
             x_right = min x2_1 x2_2;
             y_bottom = min y2_1 y2_2
         in if x_right < x_left \<or> y_bottom < y_top then False
            else
              (let intersection_area = (x_right - x_left) * (y_bottom - y_top);
                   box1_area = (x2_1 - x1_1) * (y2_1 - y1_1);
                   box2_area = (x2_2 - x1_2) * (y2_2 - y1_2);
                   iou = real_of_int intersection_area
                           / real_of_int (box1_area + box2_area - intersection_area)
               in 0.5 < iou)))"


text \<open>
  The accepted detections are kept in the order in which they were accepted, each as its
  box and its confidence. The inner loop over them stops at the first one that overlaps
  the new hit: \<open>overlap_update\<close> gives the list after that step, or \<open>None\<close> when no accepted
  detection overlaps.
\<close>

fun overlap_update :: "box \<Rightarrow> real \<Rightarrow> (box \<times> real) list \<Rightarrow> (box \<times> real) list option" where
  "overlap_update new_box match_val [] = None"
| "overlap_update new_box match_val (existing # rest) =
     (if box_overlap new_box (fst existing)
      then Some ((if snd existing < match_val then (new_box, match_val) else existing) # rest)
      else map_option (\<lambda>r. existing # r) (overlap_update new_box match_val rest))"

definition add_hit :: "(box \<times> real) list \<Rightarrow> box \<times> real \<Rightarrow> (box \<times> real) list" where
  "add_hit doors hit =
     (case overlap_update (fst hit) (snd hit) doors of
        Some doors' \<Rightarrow> doors'
      | None \<Rightarrow> doors @ [hit])"

text \<open>One pass of the two outer loops: a resized template of the given height and width
  and the response map that \<^verbatim>\<open>cv2.matchTemplate\<close> returns for it, as a list of rows.\<close>

record response =
  template_h :: nat
  template_w :: nat
  result :: "real list list"

text \<open>The positions at or above the threshold, row by row, each with its box and score.\<close>

definition hits :: "response \<Rightarrow> (box \<times> real) list" where
  "hits r =
     concat (map (\<lambda>(y1, row).
               concat (map (\<lambda>(x1, match_val).
                         if 0.6 \<le> match_val
                         then [((int x1, int y1, int x1 + int (template_w r), int y1 + int (template_h r)),
                                match_val)]
                         else [])
                       (enumerate 0 row)))
             (enumerate 0 (result r)))"

fun detect_loop :: "nat \<times> nat \<Rightarrow> response list \<Rightarrow> (box \<times> real) list \<Rightarrow> (box \<times> real) list" where
  "detect_loop edges_shape [] doors = doors"
| "detect_loop edges_shape (r # rs) doors =
     (if fst edges_shape < template_h r \<or> snd edges_shape < template_w r
      then detect_loop edges_shape rs doors
      else detect_loop edges_shape rs (fold (\<lambda>hit ds. add_hit ds hit) (hits r) doors))"

definition door_record :: "box \<times> real \<Rightarrow> door" where
  "door_record d =
     (case d of ((x1, y1, x2, y2), confidence) \<Rightarrow>
        [''bbox'' \<mapsto> Box x1 y1 x2 y2, ''confidence'' \<mapsto> Num confidence])"

definition template_detect :: "nat \<times> nat \<Rightarrow> response list \<Rightarrow> door list" where
  "template_detect edges_shape responses = map door_record (detect_loop edges_shape responses [])"

section \<open>Deskewing (preprocessing.py, deskew\_image)\<close>

text \<open>\<^verbatim>\<open>np.histogram(a, bins)\<close> without a range: equal bins between the least and the
  greatest value (widened by one half on each side when they coincide), the greatest value
  counted in the last bin.\<close>

definition hist_range :: "real list \<Rightarrow> real \<times> real" where
  "hist_range a =
     (case a of
        [] \<Rightarrow> (0, 1)
      | x # xs \<Rightarrow>
          (let lo = fold min xs x; hi = fold max xs x
           in if lo = hi then (lo - 0.5, hi + 0.5) else (lo, hi)))"

definition bin_index :: "real \<times> real \<Rightarrow> nat \<Rightarrow> real \<Rightarrow> nat" where
  "bin_index rng bins x =
     (case rng of (lo, hi) \<Rightarrow>
        (let i = nat \<lfloor>(x - lo) / (hi - lo) * real bins\<rfloor>
         in if i = bins then bins - 1 else i))"

definition histogram :: "real list \<Rightarrow> nat \<Rightarrow> nat list" where
  "histogram a bins =
     map (\<lambda>b. length (filter (\<lambda>x. bin_index (hist_range a) bins x = b) a)) [0 ..< bins]"

text \<open>\<^verbatim>\<open>np.argmax\<close>: the first index of the greatest entry.\<close>

fun argmax_from :: "nat \<Rightarrow> nat \<Rightarrow> nat \<Rightarrow> nat list \<Rightarrow> nat" where
  "argmax_from best best_val i [] = best"
| "argmax_from best best_val i (x # xs) =
     (if best_val < x then argmax_from i x (Suc i) xs else argmax_from best best_val (Suc i) xs)"

definition argmax :: "nat list \<Rightarrow> nat" where
  "argmax xs = (case xs of [] \<Rightarrow> 0 | x # rest \<Rightarrow> argmax_from 0 x 1 rest)"

text \<open>\<^verbatim>\<open>int(x)\<close> truncates towards zero.\<close>

definition py_int :: "real \<Rightarrow> int" where
  "py_int x = (if 0 \<le> x then \<lfloor>x\<rfloor> else \<lceil>x\<rceil>)"

text \<open>The angle by which the image is rotated, from the (rho, theta) pairs of the Hough
  transform that qualify.\<close>

definition qualifying_angles :: "(real \<times> real) list \<Rightarrow> real list" where
  "qualifying_angles lines =
     map snd (filter (\<lambda>(rho, theta). \<bar>theta\<bar> < pi / 6 \<or> \<bar>theta - pi / 2\<bar> < pi / 6) lines)"

definition rotation_angle :: "real list \<Rightarrow> real" where
  "rotation_angle angles =
     (let angle_bins = histogram angles 180;
          dominant_angle_index = argmax angle_bins;
          dominant_angle = real dominant_angle_index * pi / 180;
          angle_deg = degrees dominant_angle
      in if 45 < angle_deg then 90 - angle_deg
         else if angle_deg < - 45 then - 90 - angle_deg
         else angle_deg)"

text \<open>
  \<open>warp_affine\<close> stands for \<^verbatim>\<open>cv2.warpAffine\<close> with cubic interpolation and a white border:
  it takes the image, the two rows of the affine matrix and the size of the new canvas.
  \<open>lines\<close> is what \<^verbatim>\<open>cv2.HoughLines\<close> returns for the edge map of the image.
\<close>

definition deskew_image ::
  "('img \<Rightarrow> (real \<times> real \<times> real) \<times> (real \<times> real \<times> real) \<Rightarrow> int \<times> int \<Rightarrow> 'img)
     \<Rightarrow> (real \<times> real) list option \<Rightarrow> nat \<Rightarrow> nat \<Rightarrow> 'img \<Rightarrow> 'img \<times> real" where
  "deskew_image warp_affine lines height width img =
     (case lines of
        None \<Rightarrow> (img, 0)
      | Some ls \<Rightarrow>
          if ls = [] then (img, 0)
          else
            (let angles = qualifying_angles ls
             in if angles = [] then (img, 0)
                else
                  (let rotate_angle = rotation_angle angles;
                       cx = real (width div 2);
                       cy = real (height div 2);
                       alpha = cos (rotate_angle * pi / 180);
                       beta = sin (rotate_angle * pi / 180);
                       m02 = (1 - alpha) * cx - beta * cy;
                       m12 = beta * cx + (1 - alpha) * cy;
                       new_width = py_int (real height * \<bar>beta\<bar> + real width * \<bar>alpha\<bar>);
                       new_height = py_int (real height * \<bar>alpha\<bar> + real width * \<bar>beta\<bar>);
                       M = ((alpha, beta, m02 + (of_int new_width / 2 - cx)),
                            (- beta, alpha, m12 + (of_int new_height / 2 - cy)))
                   in (warp_affine img M (new_width, new_height), rotate_angle))))"

section \<open>Reading a field of a returned record\<close>

text \<open>The value that a returned record holds under a key: \<open>None\<close> when the call raised or
  the record has no such key.\<close>

definition field :: "string \<Rightarrow> py_error + door \<Rightarrow> py_value option" where
  "field key r = (case r of Inl e \<Rightarrow> None | Inr d \<Rightarrow> d key)"

section \<open>Rounding\<close>








section \<open>Baseline measurement\<close>





section \<open>Refined measurement\<close>

lemma float_mod_range: 
  assumes "0 < m" shows "0 \<le> float_mod x m \<and> float_mod x m < m"
proof -
  have "of_int \<lfloor>x / m\<rfloor> * m \<le> x" using assms by (rule floor_divide_lower)
  moreover have "x < (of_int \<lfloor>x / m\<rfloor> + 1) * m" using assms by (rule floor_divide_upper)
  ultimately show ?thesis unfolding float_mod_def by (simp add: algebra_simps)
qed

lemma orientation_deg_range: "0 \<le> orientation_deg m \<and> orientation_deg m < 180"
  unfolding orientation_deg_def Let_def by (cases m) (simp add: float_mod_range)

lemma bbox_of_Inr: "door ''bbox'' = Some (Box x1 y1 x2 y2) \<Longrightarrow> bbox_of door = Inr (x1, y1, x2, y2)"
  by (simp add: bbox_of_def)

lemma refine_degraded:
  assumes "bbox_of door = Inr (x1, y1, x2, y2)"
    and "region_moments img (x1, y1, x2, y2) = (mu20, mu02, mu11)"
    and "slice_len (rows img) y1 y2 = 0 \<or> slice_len (cols img) x1 x2 = 0 \<or> mu20 + mu02 = 0"
  shows "refine_door_measurement img door s t = door_width_mm door s t"
  using assms by (auto simp: refine_door_measurement_def Let_def)

lemma refine_refined:
  assumes "bbox_of door = Inr (x1, y1, x2, y2)"
    and "region_moments img (x1, y1, x2, y2) = (mu20, mu02, mu11)"
    and "slice_len (rows img) y1 y2 \<noteq> 0" and "slice_len (cols img) x1 x2 \<noteq> 0" and "mu20 + mu02 \<noteq> 0"
  shows "refine_door_measurement img door s t =
           Inr (door(''width_mm'' \<mapsto> Num (round1 (refined_width_px (orientation_deg (mu20, mu02, mu11))
                                              (slice_len (rows img) y1 y2, slice_len (cols img) x1 x2)
                                              (region_contours img (x1, y1, x2, y2)) * s)),
                     ''is_compliant'' \<mapsto> Flag (t \<le> refined_width_px (orientation_deg (mu20, mu02, mu11))
                                              (slice_len (rows img) y1 y2, slice_len (cols img) x1 x2)
                                              (region_contours img (x1, y1, x2, y2)) * s),
                     ''angle_deg'' \<mapsto> Num (round1 (orientation_deg (mu20, mu02, mu11)))))"
  using assms by (simp add: refine_door_measurement_def Let_def)

lemma arctan2_neg_axis: "x < 0 \<Longrightarrow> arctan2 0 x = pi"
  by (simp add: arctan2_def)

lemma arctan2_pos_axis: "0 < x \<Longrightarrow> arctan2 0 x = 0"
  by (simp add: arctan2_def)

lemma orientation_deg_upright: "mu20 < mu02 \<Longrightarrow> orientation_deg (mu20, mu02, 0) = 90"
  by (simp add: orientation_deg_def Let_def arctan2_neg_axis degrees_def float_mod_def)

lemma orientation_deg_level: "mu02 < mu20 \<Longrightarrow> orientation_deg (mu20, mu02, 0) = 0"
  by (simp add: orientation_deg_def Let_def arctan2_pos_axis degrees_def float_mod_def)

lemma slice_len_inside: "0 \<le> a \<Longrightarrow> a \<le> b \<Longrightarrow> b \<le> int n \<Longrightarrow> slice_len n a b = nat (b - a)"
  by (auto simp: slice_len_def adjust_index_def Let_def)




text \<open>
  Claim C3: for every image, door candidate and scale, \<open>refine_door_measurement\<close> returns a
  record. Whenever the crop is empty or the second-order central moments mu20 and mu02 of
  the eroded mask both vanish, the record is exactly the baseline measurement
  \<open>door_width_mm\<close> of the same candidate; otherwise it is the refined measurement, with the
  pixel width chosen from the orientation and the orientation recorded. A door candidate is
  a record with a bounding box; the central moments mu20 and mu02 of a mask are sums of
  squares weighted by the mask and so are not negative.
\<close>

theorem refine_door_measurement_never_fails:
  assumes "door ''bbox'' = Some (Box x1 y1 x2 y2)"
    and "region_moments img (x1, y1, x2, y2) = (mu20, mu02, mu11)"
    and "0 \<le> mu20" and "0 \<le> mu02"
  shows "(\<exists>d. refine_door_measurement img door s t = Inr d)
       \<and> (slice_len (rows img) y1 y2 = 0 \<or> slice_len (cols img) x1 x2 = 0 \<or> (mu20 = 0 \<and> mu02 = 0)
            \<longrightarrow> refine_door_measurement img door s t = door_width_mm door s t)
       \<and> (\<not> (slice_len (rows img) y1 y2 = 0 \<or> slice_len (cols img) x1 x2 = 0 \<or> (mu20 = 0 \<and> mu02 = 0))
            \<longrightarrow> refine_door_measurement img door s t =
                  Inr (door(''width_mm'' \<mapsto> Num (round1 (refined_width_px (orientation_deg (mu20, mu02, mu11))
                                              (slice_len (rows img) y1 y2, slice_len (cols img) x1 x2)
                                              (region_contours img (x1, y1, x2, y2)) * s)),
                     ''is_compliant'' \<mapsto> Flag (t \<le> refined_width_px (orientation_deg (mu20, mu02, mu11))
                                              (slice_len (rows img) y1 y2, slice_len (cols img) x1 x2)
                                              (region_contours img (x1, y1, x2, y2)) * s),
                     ''angle_deg'' \<mapsto> Num (round1 (orientation_deg (mu20, mu02, mu11))))))"
proof -
  have bb: "bbox_of door = Inr (x1, y1, x2, y2)" using assms(1) by (simp add: bbox_of_def)
  have both: "mu20 + mu02 = 0 \<longleftrightarrow> mu20 = 0 \<and> mu02 = 0"
    using assms(3,4) by linarith
  show ?thesis
  proof (cases "slice_len (rows img) y1 y2 = 0 \<or> slice_len (cols img) x1 x2 = 0 \<or> mu20 + mu02 = 0")
    case True
    then have "refine_door_measurement img door s t = door_width_mm door s t"
      using refine_degraded [OF bb assms(2)] by blast
    moreover have "\<exists>d. door_width_mm door s t = Inr d"
      using assms(1) by (simp add: door_width_mm_def bbox_of_def Let_def)
    ultimately show ?thesis using True both by auto
  next
    case False
    then have "slice_len (rows img) y1 y2 \<noteq> 0" "slice_len (cols img) x1 x2 \<noteq> 0" "mu20 + mu02 \<noteq> 0"
      by auto
    from refine_refined [OF bb assms(2) this, of s t] False both show ?thesis by auto
  qed
qed

text \<open>The theorem at a 190 by 800 pixel candidate on a 1000 by 1000 page, once with an
  upright blob (refined: 950 mm at 90 degrees) and once with vanishing moments (baseline).\<close>

theorem refine_door_measurement_never_fails_witness:
  "(let door = [''bbox'' \<mapsto> Box 100 100 290 900, ''confidence'' \<mapsto> Num 0.8];
        upright = \<lparr>rows = 1000, cols = 1000, region_moments = (\<lambda>b. (1, 4, 0)),
                   region_contours = (\<lambda>b. [])\<rparr>;
        flat = \<lparr>rows = 1000, cols = 1000, region_moments = (\<lambda>b. (0, 0, 0)),
                region_contours = (\<lambda>b. [])\<rparr>
    in door ''bbox'' = Some (Box 100 100 290 900)
       \<and> region_moments upright (100, 100, 290, 900) = (1, 4, 0)
       \<and> (0::real) \<le> 1 \<and> (0::real) \<le> 4
       \<and> refine_door_measurement upright door 5 900
           = Inr [''bbox'' \<mapsto> Box 100 100 290 900, ''confidence'' \<mapsto> Num 0.8,
                  ''width_mm'' \<mapsto> Num 950, ''is_compliant'' \<mapsto> Flag True, ''angle_deg'' \<mapsto> Num 90]
       \<and> region_moments flat (100, 100, 290, 900) = (0, 0, 0)
       \<and> (0::real) \<le> 0
       \<and> refine_door_measurement flat door 5 900 = door_width_mm door 5 900)"
  using refine_door_measurement_never_fails
          [of "[''bbox'' \<mapsto> Box 100 100 290 900, ''confidence'' \<mapsto> Num 0.8]" 100 100 290 900 "\<lparr>rows = 1000, cols = 1000, region_moments = (\<lambda>b. (1, 4, 0)), region_contours = (\<lambda>b. [])\<rparr>" 1 4 0 5 900]
        refine_door_measurement_never_fails
          [of "[''bbox'' \<mapsto> Box 100 100 290 900, ''confidence'' \<mapsto> Num 0.8]" 100 100 290 900 "\<lparr>rows = 1000, cols = 1000, region_moments = (\<lambda>b. (0, 0, 0)), region_contours = (\<lambda>b. [])\<rparr>" 0 0 0 5 900]
  by (simp add: Let_def slice_len_inside orientation_deg_upright refined_width_px_def round1_def py_round_def)




text \<open>
  Claim C10: whenever \<open>refine_door_measurement\<close> degrades to the baseline (empty crop, or
  mu20 + mu02 = 0), the record returned for a door candidate (which carries no angle\_deg
  of its own) holds width\_mm and is\_compliant but no angle\_deg, although the refined path
  always records one; the row of the CSV report and the record of the summary table then
  hold 0 for the missing angle.
\<close>

theorem degraded_measurement_has_no_angle:
  assumes "door ''bbox'' = Some (Box x1 y1 x2 y2)"
    and "door ''angle_deg'' = None"
    and "region_moments img (x1, y1, x2, y2) = (mu20, mu02, mu11)"
    and r: "r = refine_door_measurement img door s t"
  shows "(slice_len (rows img) y1 y2 = 0 \<or> slice_len (cols img) x1 x2 = 0 \<or> mu20 + mu02 = 0 \<longrightarrow>
           (\<exists>d w c. r = Inr d \<and> d ''width_mm'' = Some (Num w) \<and> d ''is_compliant'' = Some (Flag c)
              \<and> d ''angle_deg'' = None
              \<and> field ''angle_deg'' (csv_row (d(''page'' \<mapsto> Str name, ''page_number'' \<mapsto> IntV n)))
                  = Some (IntV 0)
              \<and> field ''angle_deg'' (summary_record (d(''page'' \<mapsto> Str name, ''page_number'' \<mapsto> IntV n)))
                  = Some (IntV 0)))
       \<and> (\<not> (slice_len (rows img) y1 y2 = 0 \<or> slice_len (cols img) x1 x2 = 0 \<or> mu20 + mu02 = 0) \<longrightarrow>
           (\<exists>d. r = Inr d \<and> d ''angle_deg'' = Some (Num (round1 (orientation_deg (mu20, mu02, mu11))))
              \<and> field ''angle_deg'' (csv_row (d(''page'' \<mapsto> Str name, ''page_number'' \<mapsto> IntV n)))
                  = Some (Num (round1 (orientation_deg (mu20, mu02, mu11))))))"
proof -
  have bb: "bbox_of door = Inr (x1, y1, x2, y2)" using assms(1) by (simp add: bbox_of_def)
  show ?thesis
  proof (cases "slice_len (rows img) y1 y2 = 0 \<or> slice_len (cols img) x1 x2 = 0 \<or> mu20 + mu02 = 0")
    case True
    then have "r = door_width_mm door s t"
      using refine_degraded [OF bb assms(3)] r by blast
    then have "r = Inr (door(''width_mm'' \<mapsto> Num (round1 (of_int (min \<bar>x2 - x1\<bar> \<bar>y2 - y1\<bar>) * s)),
                     ''is_compliant'' \<mapsto> Flag (t \<le> of_int (min \<bar>x2 - x1\<bar> \<bar>y2 - y1\<bar>) * s)))"
      using bb by (simp add: door_width_mm_def Let_def)
    with True assms(1,2) show ?thesis
      by (simp add: csv_row_def summary_record_def bbox_of_def field_def get_or_def)
  next
    case False
    then have ne: "slice_len (rows img) y1 y2 \<noteq> 0" "slice_len (cols img) x1 x2 \<noteq> 0" "mu20 + mu02 \<noteq> 0"
      by auto
    from refine_refined [OF bb assms(3) ne, of s t] False assms(1) r show ?thesis
      by (simp add: csv_row_def bbox_of_def field_def get_or_def)
  qed
qed

text \<open>The theorem at the same candidate, with vanishing moments (no angle, reported as 0) and
  with an upright blob (angle 90).\<close>

theorem degraded_measurement_has_no_angle_witness:
  "(let door = [''bbox'' \<mapsto> Box 100 100 290 900, ''confidence'' \<mapsto> Num 0.8];
        upright = \<lparr>rows = 1000, cols = 1000, region_moments = (\<lambda>b. (1, 4, 0)),
                   region_contours = (\<lambda>b. [])\<rparr>;
        flat = \<lparr>rows = 1000, cols = 1000, region_moments = (\<lambda>b. (0, 0, 0)),
                region_contours = (\<lambda>b. [])\<rparr>
    in door ''bbox'' = Some (Box 100 100 290 900)
       \<and> door ''angle_deg'' = None
       \<and> region_moments flat (100, 100, 290, 900) = (0, 0, 0)
       \<and> (\<exists>d. refine_door_measurement flat door 5 900 = Inr d
            \<and> d ''angle_deg'' = None
            \<and> field ''angle_deg'' (csv_row (d(''page'' \<mapsto> Str ''page_1.png'', ''page_number'' \<mapsto> IntV 1)))
                = Some (IntV 0))
       \<and> region_moments upright (100, 100, 290, 900) = (1, 4, 0)
       \<and> (\<exists>d. refine_door_measurement upright door 5 900 = Inr d
            \<and> d ''angle_deg'' = Some (Num 90)))"
  using degraded_measurement_has_no_angle
          [of "[''bbox'' \<mapsto> Box 100 100 290 900, ''confidence'' \<mapsto> Num 0.8]" 100 100 290 900 "\<lparr>rows = 1000, cols = 1000, region_moments = (\<lambda>b. (0, 0, 0)), region_contours = (\<lambda>b. [])\<rparr>" 0 0 0 _ 5 900 "''page_1.png''" 1]
        degraded_measurement_has_no_angle
          [of "[''bbox'' \<mapsto> Box 100 100 290 900, ''confidence'' \<mapsto> Num 0.8]" 100 100 290 900 "\<lparr>rows = 1000, cols = 1000, region_moments = (\<lambda>b. (1, 4, 0)), region_contours = (\<lambda>b. [])\<rparr>" 1 4 0 _ 5 900 "''page_1.png''" 1]
  by (auto simp: Let_def slice_len_inside orientation_deg_upright round1_def py_round_def)

section \<open>Matching the scale notations\<close>

text \<open>A greedy repetition whose class is disjoint from what must follow takes every
  character of the class, and a group of one or more such characters captures them all.\<close>

lemma star_match_greedy: "k (dropWhile p s) = Some r \<Longrightarrow> star_match p s k = Some r"
  by (induction s) auto

lemma star_match_disjoint:
  "(\<And>c cs. p c \<Longrightarrow> k (c # cs) = None) \<Longrightarrow> star_match p s k = k (dropWhile p s)"
  by (induction s) (auto split: option.splits)

lemma take_matched: "take (length s - length (dropWhile p s)) s = takeWhile p s"
proof -
  have "length s = length (takeWhile p s) + length (dropWhile p s)"
    by (metis length_append takeWhile_dropWhile_id)
  then have "length s - length (dropWhile p s) = length (takeWhile p s)" by simp
  then show ?thesis by (metis append_eq_conv_conj takeWhile_dropWhile_id)
qed

lemma group_plus:
  "rmatch (Group (Plus p)) s g (\<lambda>s' g'. Some (g', s')) =
     (case s of [] \<Rightarrow> None
      | d # t \<Rightarrow> if p d then Some (g @ [d # takeWhile p t], dropWhile p t) else None)"
proof (cases s)
  case Nil
  then show ?thesis by (simp add: Plus_def)
next
  case (Cons d t)
  have "take (Suc (length t) - length (dropWhile p t)) (d # t) = d # takeWhile p t"
    using take_matched [of t p] by (simp add: Suc_diff_le length_dropWhile_le)
  then show ?thesis using Cons
    by (auto simp: Plus_def intro!: star_match_greedy)
qed

lemma star_case:
  assumes "\<And>c. q c \<Longrightarrow> \<not> p c"
  shows "star_match p s (case_list None (\<lambda>c cs. if q c then f c cs else None))
           = case_list None (\<lambda>c cs. if q c then f c cs else None) (dropWhile p s)"
  by (rule star_match_disjoint) (use assms in auto)

lemma digit_not_space: "digit c \<Longrightarrow> \<not> space c"
  by (auto simp: space_def digit_def one_of_def)

lemma colon_not_space: "one_of '':'' c \<Longrightarrow> \<not> space c"
  by (auto simp: space_def one_of_def)

lemma match_ratio:
  "match_here ratio_pattern t =
     (case t of [] \<Rightarrow> None
      | c # t1 \<Rightarrow>
          if c = CHR ''1''
          then (case dropWhile space t1 of [] \<Rightarrow> None
                | c2 # t3 \<Rightarrow>
                    if c2 = CHR '':''
                    then (case dropWhile space t3 of [] \<Rightarrow> None
                          | d # t5 \<Rightarrow>
                              if digit d then Some ([d # takeWhile digit t5], dropWhile digit t5)
                              else None)
                    else None)
          else None)"
  unfolding match_here_def ratio_pattern_def
  apply (simp add: group_plus del: rmatch.simps(7))
  apply (simp add: star_case digit_not_space colon_not_space cong: list.case_cong if_cong)
  apply (simp add: is_char_def one_of_def cong: list.case_cong if_cong)
  done


lemma dropWhile_append_stop:
  "\<not> p x \<Longrightarrow> dropWhile p (s @ x # rest) = (if \<forall>c\<in>set s. p c then x # rest else dropWhile p s @ x # rest)"
  by (induction s) auto

lemma match_ratio_extend:
  assumes "match_here ratio_pattern s = None"
    and "\<not> space x" and "x \<noteq> CHR '':''" and "\<not> digit x" and "x \<noteq> CHR ''1''"
  shows "match_here ratio_pattern (s @ x # rest) = None"
proof (cases s)
  case Nil
  then show ?thesis using assms by (simp add: match_ratio)
next
  case (Cons c t1)
  show ?thesis
  proof (cases "c = CHR ''1''")
    case False
    then show ?thesis using Cons by (simp add: match_ratio)
  next
    case True
    show ?thesis
    proof (cases "dropWhile space t1")
      case Nil
      then have "\<forall>c\<in>set t1. space c" by (simp add: dropWhile_eq_Nil_conv)
      then show ?thesis using Cons True assms(2,3)
        by (auto simp: match_ratio dropWhile_append_stop)
    next
      case (Cons c2 t3) note d1 = this
      then have ns: "\<not> (\<forall>c\<in>set t1. space c)" by (metis dropWhile_eq_Nil_conv list.distinct(1))
      show ?thesis
      proof (cases "c2 = CHR '':''")
        case False
        then show ?thesis using \<open>s = c # t1\<close> True d1 ns assms(2)
          by (auto simp: match_ratio dropWhile_append_stop)
      next
        case c2: True
        show ?thesis
        proof (cases "dropWhile space t3")
          case Nil
          then have "\<forall>c\<in>set t3. space c" by (simp add: dropWhile_eq_Nil_conv)
          then show ?thesis using \<open>s = c # t1\<close> True d1 ns c2 assms(2,4)
            by (auto simp: match_ratio dropWhile_append_stop)
        next
          case (Cons d t5)
          then have ns3: "\<not> (\<forall>c\<in>set t3. space c)" by (metis dropWhile_eq_Nil_conv list.distinct(1))
          have "\<not> digit d" using assms(1) \<open>s = c # t1\<close> True d1 c2 Cons
            by (auto simp: match_ratio)
          then show ?thesis using \<open>s = c # t1\<close> True d1 ns c2 Cons ns3 assms(2)
            by (auto simp: match_ratio dropWhile_append_stop)
        qed
      qed
    qed
  qed
qed

lemma search_ratio_skip:
  assumes "search ratio_pattern pre = None"
    and "\<not> space x" and "x \<noteq> CHR '':''" and "\<not> digit x" and "x \<noteq> CHR ''1''"
  shows "search ratio_pattern (pre @ x # rest) = search ratio_pattern (x # rest)"
  using assms(1)
proof (induction pre)
  case Nil
  then show ?case by simp
next
  case (Cons c cs)
  then have m: "match_here ratio_pattern (c # cs) = None" and s: "search ratio_pattern cs = None"
    by (auto split: option.splits)
  have "match_here ratio_pattern ((c # cs) @ x # rest) = None"
    using match_ratio_extend [OF m assms(2-5)] .
  then show ?case using Cons.IH [OF s] by simp
qed

lemma search_scale_1_50:
  assumes "post = [] \<or> \<not> digit (hd post)"
  shows "search ratio_pattern (''Scale 1:50'' @ post) = Some [''50'']"
proof -
  have "takeWhile digit post = []" using assms by (cases post) auto
  then show ?thesis
    by (simp add: match_ratio space_def digit_def one_of_def)
qed

lemma dropWhile_all_then: "\<forall>c\<in>set ws. p c \<Longrightarrow> \<not> p x \<Longrightarrow> dropWhile p (ws @ x # rest) = x # rest"
  by (simp add: dropWhile_append_stop)

lemma takeWhile_digits_then:
  "\<forall>c\<in>set ds. p c \<Longrightarrow> post = [] \<or> \<not> p (hd post) \<Longrightarrow> takeWhile p (ds @ post) = ds"
  by (cases post) (auto simp: takeWhile_append2 )

lemma search_skip_no_one:
  "CHR ''1'' \<notin> set pre \<Longrightarrow> search ratio_pattern (pre @ CHR ''1'' # rest) = search ratio_pattern (CHR ''1'' # rest)"
  by (induction pre) (auto simp: match_ratio)

lemma search_ratio_shape:
  assumes "CHR ''1'' \<notin> set pre"
    and "\<forall>c\<in>set ws1. space c" and "\<forall>c\<in>set ws2. space c"
    and "ds \<noteq> []" and "\<forall>c\<in>set ds. digit c"
    and "post = [] \<or> \<not> digit (hd post)"
  shows "search ratio_pattern (pre @ ''1'' @ ws1 @ '':'' @ ws2 @ ds @ post) = Some [ds]"
proof -
  obtain d ds' where ds: "ds = d # ds'" using assms(4) by (cases ds) auto
  have d: "digit d" and ds': "\<forall>c\<in>set ds'. digit c" using assms(5) ds by auto
  have ns: "\<not> space CHR '':''" "\<not> space d"
    using d digit_not_space by (auto simp: space_def one_of_def)
  have 1: "dropWhile space (ws1 @ CHR '':'' # ws2 @ d # ds' @ post) = CHR '':'' # ws2 @ d # ds' @ post"
    using assms(2) ns(1) by (rule dropWhile_all_then)
  have 2: "dropWhile space (ws2 @ d # ds' @ post) = d # ds' @ post"
    using assms(3) ns(2) by (rule dropWhile_all_then)
  have 3: "takeWhile digit (ds' @ post) = ds'"
    using ds' assms(6) by (rule takeWhile_digits_then)
  have "match_here ratio_pattern (CHR ''1'' # ws1 @ CHR '':'' # ws2 @ d # ds' @ post)
          = Some ([d # ds'], dropWhile digit (ds' @ post))"
    by (simp add: match_ratio 1 2 3 d)
  then have "search ratio_pattern (CHR ''1'' # ws1 @ CHR '':'' # ws2 @ d # ds' @ post) = Some [ds]"
    using ds by simp
  then show ?thesis using search_skip_no_one [OF assms(1)] ds by simp
qed

lemma scale_from_groups:
  "find_numeric_scale_text text =
     (case search ratio_pattern text of
        Some g \<Rightarrow> (case g of [n] \<Rightarrow> map_sum id Some (fdiv 1 (float_of n)) | _ \<Rightarrow> Inl IndexError)
      | None \<Rightarrow>
     (case search feet_pattern text of
        Some g \<Rightarrow>
          (case g of
             [a, b, f] \<Rightarrow>
               (if float_of b = 0 \<or> float_of a = 0 \<or> float_of f = 0 then Inl ZeroDivisionError
                else Inr (Some ((float_of a / float_of b) / (12 * float_of f))))
           | _ \<Rightarrow> Inl IndexError)
      | None \<Rightarrow>
     (case search fraction_pattern text of
        Some g \<Rightarrow> (case g of [n] \<Rightarrow> map_sum id Some (fdiv 1 (float_of n)) | _ \<Rightarrow> Inl IndexError)
      | None \<Rightarrow> Inr None)))"
  unfolding find_numeric_scale_text_def
  by (auto simp: fdiv_def Let_def split: option.splits list.splits)


lemma group_capture:
  assumes "dropWhile p t = r"
  shows "take (Suc (length t) - length r) (a # t) = a # takeWhile p t"
proof -
  have "length r \<le> length t" using assms length_dropWhile_le [of p t] by auto
  then have "Suc (length t) - length r = Suc (length t - length r)" by simp
  moreover have "take (length t - length r) t = takeWhile p t"
    using take_matched [of t p] assms by simp
  ultimately show ?thesis by simp
qed

lemma slash_not_space: "is_char CHR ''/'' c \<Longrightarrow> \<not> space c"
  by (auto simp: space_def one_of_def is_char_def)

lemma equals_not_space: "is_char CHR ''='' c \<Longrightarrow> \<not> space c"
  by (auto simp: space_def one_of_def is_char_def)

lemma slash_not_digit: "is_char CHR ''/'' c \<Longrightarrow> \<not> digit c"
  by (auto simp: digit_def one_of_def is_char_def)

lemma quote_not_digit: "quote c \<Longrightarrow> \<not> digit c"
  by (auto simp: digit_def quote_def one_of_def)

lemma match_fraction:
  "match_here fraction_pattern t =
     (case t of [] \<Rightarrow> None
      | c # t1 \<Rightarrow>
          if c = CHR ''1''
          then (case dropWhile space t1 of [] \<Rightarrow> None
                | c2 # t3 \<Rightarrow>
                    if c2 = CHR ''/''
                    then (case dropWhile space t3 of [] \<Rightarrow> None
                          | d # t5 \<Rightarrow>
                              if digit d then Some ([d # takeWhile digit t5], dropWhile digit t5)
                              else None)
                    else None)
          else None)"
  unfolding match_here_def fraction_pattern_def
  apply (simp add: group_plus del: rmatch.simps(7))
  apply (simp add: star_case digit_not_space slash_not_space cong: list.case_cong if_cong)
  apply (simp add: is_char_def one_of_def cong: list.case_cong if_cong)
  done

lemma group_then:
  assumes "\<And>c. q c \<Longrightarrow> \<not> p c"
  shows "rmatch (Group (Plus p)) s g
           (\<lambda>s' g'. case s' of [] \<Rightarrow> None | c # t \<Rightarrow> if q c then K t g' else None)
         = (case s of [] \<Rightarrow> None
            | a # t \<Rightarrow>
                if p a
                then (case dropWhile p t of [] \<Rightarrow> None
                      | c # t2 \<Rightarrow> if q c then K t2 (g @ [a # takeWhile p t]) else None)
                else None)"
proof (cases s)
  case Nil
  then show ?thesis by (simp add: Plus_def)
next
  case (Cons a t)
  have "star_match p t
          (\<lambda>s'. case s' of [] \<Rightarrow> None
                 | c # t2 \<Rightarrow> if q c then K t2 (g @ [take (Suc (length t) - length s') (a # t)]) else None)
        = (case dropWhile p t of [] \<Rightarrow> None
           | c # t2 \<Rightarrow> if q c then K t2 (g @ [take (Suc (length t) - length (dropWhile p t)) (a # t)]) else None)"
    by (rule star_match_disjoint) (use assms in auto)
  also have "\<dots> = (case dropWhile p t of [] \<Rightarrow> None
           | c # t2 \<Rightarrow> if q c then K t2 (g @ [a # takeWhile p t]) else None)"
    by (simp only: group_capture [OF refl])
  finally show ?thesis using Cons by (simp add: Plus_def)
qed

lemma match_feet:
  "match_here feet_pattern t =
     (case t of [] \<Rightarrow> None
      | a # t1 \<Rightarrow>
          if digit a
          then (case dropWhile digit t1 of [] \<Rightarrow> None
                | c # t2 \<Rightarrow>
                    if c = CHR ''/''
                    then (case t2 of [] \<Rightarrow> None
                          | b # t3 \<Rightarrow>
                              if digit b
                              then (case dropWhile digit t3 of [] \<Rightarrow> None
                                    | q # t4 \<Rightarrow>
                                        if quote q
                                        then (case dropWhile space t4 of [] \<Rightarrow> None
                                              | e # t5 \<Rightarrow>
                                                  if e = CHR ''=''
                                                  then (case dropWhile space t5 of [] \<Rightarrow> None
                                                        | f # t6 \<Rightarrow>
                                                            if digit f
                                                            then (case dropWhile digit t6 of [] \<Rightarrow> None
                                                                  | q2 # t7 \<Rightarrow>
                                                                      if quote q2
                                                                      then Some ([a # takeWhile digit t1,
                                                                                  b # takeWhile digit t3,
                                                                                  f # takeWhile digit t6], t7)
                                                                      else None)
                                                            else None)
                                                  else None)
                                        else None)
                              else None)
                    else None)
          else None)"
  unfolding match_here_def feet_pattern_def
  apply (simp add: group_then star_case slash_not_digit quote_not_digit equals_not_space digit_not_space
           del: rmatch.simps(7) cong: list.case_cong if_cong)
  apply (simp add: is_char_def cong: list.case_cong if_cong)
  done

lemma dropWhile_head_in: "dropWhile p xs = y # ys \<Longrightarrow> y \<in> set xs"
  by (metis list.set_intros(1) set_dropWhileD)

lemma dropWhile_tail_in: "dropWhile p xs = y # ys \<Longrightarrow> set ys \<subseteq> set xs"
  by (metis set_dropWhileD set_subset_Cons subset_code(1))

lemma match_ratio_needs_colon: "CHR '':'' \<notin> set t \<Longrightarrow> match_here ratio_pattern t = None"
  by (auto simp: match_ratio split: list.splits dest: dropWhile_head_in)

lemma search_ratio_needs_colon: "CHR '':'' \<notin> set t \<Longrightarrow> search ratio_pattern t = None"
  by (induction t) (simp_all add: match_ratio_needs_colon)

lemma match_fraction_needs_slash: "CHR ''/'' \<notin> set t \<Longrightarrow> match_here fraction_pattern t = None"
  by (auto simp: match_fraction split: list.splits dest: dropWhile_head_in)

lemma search_fraction_needs_slash: "CHR ''/'' \<notin> set t \<Longrightarrow> search fraction_pattern t = None"
  by (induction t) (simp_all add: match_fraction_needs_slash)

lemma match_feet_needs_equals:
  assumes "CHR ''='' \<notin> set t"
  shows "match_here feet_pattern t = None"
proof (rule ccontr)
  assume "match_here feet_pattern t \<noteq> None"
  then obtain a t1 t2 b t3 q t4 t5 where
    "t = a # t1" "dropWhile digit t1 = CHR ''/'' # t2" "t2 = b # t3"
    "dropWhile digit t3 = q # t4" "dropWhile space t4 = CHR ''='' # t5"
    unfolding match_feet by (auto split: list.splits if_splits)
  note m = this
  have "CHR ''='' \<in> set t4" using m(5) by (rule dropWhile_head_in)
  moreover have "set t4 \<subseteq> set t3" using m(4) by (rule dropWhile_tail_in)
  moreover have "set t3 \<subseteq> set t2" using m(3) by auto
  moreover have "set t2 \<subseteq> set t1" using m(2) by (rule dropWhile_tail_in)
  moreover have "set t1 \<subseteq> set t" using m(1) by auto
  ultimately show False using assms by blast
qed

lemma search_feet_needs_equals: "CHR ''='' \<notin> set t \<Longrightarrow> search feet_pattern t = None"
  by (induction t) (simp_all add: match_feet_needs_equals)

lemma search_fraction_skip:
  "CHR ''1'' \<notin> set pre \<Longrightarrow> search fraction_pattern (pre @ CHR ''1'' # rest) = search fraction_pattern (CHR ''1'' # rest)"
  by (induction pre) (auto simp: match_fraction)

lemma search_fraction_shape:
  assumes "CHR ''1'' \<notin> set pre"
    and "\<forall>c\<in>set ws1. space c" and "\<forall>c\<in>set ws2. space c"
    and "ds \<noteq> []" and "\<forall>c\<in>set ds. digit c"
    and "post = [] \<or> \<not> digit (hd post)"
  shows "search fraction_pattern (pre @ ''1'' @ ws1 @ ''/'' @ ws2 @ ds @ post) = Some [ds]"
proof -
  obtain d ds' where ds: "ds = d # ds'" using assms(4) by (cases ds) auto
  have d: "digit d" and ds': "\<forall>c\<in>set ds'. digit c" using assms(5) ds by auto
  have ns: "\<not> space CHR ''/''" "\<not> space d"
    using d digit_not_space by (auto simp: space_def one_of_def)
  have 1: "dropWhile space (ws1 @ CHR ''/'' # ws2 @ d # ds' @ post) = CHR ''/'' # ws2 @ d # ds' @ post"
    using assms(2) ns(1) by (rule dropWhile_all_then)
  have 2: "dropWhile space (ws2 @ d # ds' @ post) = d # ds' @ post"
    using assms(3) ns(2) by (rule dropWhile_all_then)
  have 3: "takeWhile digit (ds' @ post) = ds'"
    using ds' assms(6) by (rule takeWhile_digits_then)
  have "match_here fraction_pattern (CHR ''1'' # ws1 @ CHR ''/'' # ws2 @ d # ds' @ post)
          = Some ([d # ds'], dropWhile digit (ds' @ post))"
    by (simp add: match_fraction 1 2 3 d)
  then have "search fraction_pattern (CHR ''1'' # ws1 @ CHR ''/'' # ws2 @ d # ds' @ post) = Some [ds]"
    using ds by simp
  then show ?thesis using search_fraction_skip [OF assms(1)] ds by simp
qed

lemma search_feet_skip:
  "\<forall>c\<in>set pre. \<not> digit c \<Longrightarrow> digit a \<Longrightarrow>
     search feet_pattern (pre @ a # rest) = search feet_pattern (a # rest)"
  by (induction pre) (auto simp: match_feet)

lemma takeWhile_all_then: "\<forall>c\<in>set xs. p c \<Longrightarrow> \<not> p x \<Longrightarrow> takeWhile p (xs @ x # rest) = xs"
  by (induction xs) auto

lemma search_feet_shape:
  assumes "\<forall>c\<in>set pre. \<not> digit c"
    and "A \<noteq> []" "\<forall>c\<in>set A. digit c" and "B \<noteq> []" "\<forall>c\<in>set B. digit c"
    and "F \<noteq> []" "\<forall>c\<in>set F. digit c"
    and "quote q1" "quote q2"
    and "\<forall>c\<in>set ws1. space c" and "\<forall>c\<in>set ws2. space c"
  shows "search feet_pattern (pre @ A @ ''/'' @ B @ [q1] @ ws1 @ ''='' @ ws2 @ F @ [q2] @ post)
           = Some [A, B, F]"
proof -
  obtain a A' where A: "A = a # A'" using assms(2) by (cases A) auto
  obtain b B' where B: "B = b # B'" using assms(4) by (cases B) auto
  obtain f F' where F: "F = f # F'" using assms(6) by (cases F) auto
  have dg: "digit a" "\<forall>c\<in>set A'. digit c" "digit b" "\<forall>c\<in>set B'. digit c" "digit f" "\<forall>c\<in>set F'. digit c"
    using assms(3,5,7) A B F by auto
  have nd: "\<not> digit CHR ''/''" "\<not> digit q1" "\<not> digit q2"
    using assms(8,9) quote_not_digit by (auto simp: digit_def one_of_def)
  have ns: "\<not> space CHR ''=''" "\<not> space f"
    using dg(5) digit_not_space by (auto simp: space_def one_of_def)
  let ?r5 = "q2 # post"
  let ?r4 = "ws2 @ f # F' @ ?r5"
  let ?r3 = "ws1 @ CHR ''='' # ?r4"
  let ?r2 = "B' @ q1 # ?r3"
  let ?r1 = "A' @ CHR ''/'' # b # ?r2"
  have 1: "dropWhile digit ?r1 = CHR ''/'' # b # ?r2" "takeWhile digit ?r1 = A'"
    using dg(2) nd(1) by (auto intro: dropWhile_all_then takeWhile_all_then)
  have 2: "dropWhile digit ?r2 = q1 # ?r3" "takeWhile digit ?r2 = B'"
    using dg(4) nd(2) by (auto intro: dropWhile_all_then takeWhile_all_then)
  have 3: "dropWhile space ?r3 = CHR ''='' # ?r4"
    using assms(10) ns(1) by (rule dropWhile_all_then)
  have 4: "dropWhile space ?r4 = f # F' @ ?r5"
    using assms(11) ns(2) by (rule dropWhile_all_then)
  have 5: "dropWhile digit (F' @ ?r5) = ?r5" "takeWhile digit (F' @ ?r5) = F'"
    using dg(6) nd(3) by (auto intro: dropWhile_all_then takeWhile_all_then)
  have "match_here feet_pattern (a # ?r1) = Some ([a # A', b # B', f # F'], post)"
    unfolding match_feet using dg(1,3,5) assms(8,9) by (simp add: 1 2 3 4 5)
  then have "search feet_pattern (a # ?r1) = Some [A, B, F]"
    using A B F by simp
  moreover have "search feet_pattern (pre @ a # ?r1) = search feet_pattern (a # ?r1)"
    using assms(1) dg(1) by (rule search_feet_skip)
  moreover have "pre @ A @ ''/'' @ B @ [q1] @ ws1 @ ''='' @ ws2 @ F @ [q2] @ post = pre @ a # ?r1"
    using A B F by simp
  ultimately show ?thesis by (simp only:)
qed

text \<open>
  Claim C4, as stated, promises the factor 0.02 for any recognised text that contains
  "Scale 1:50". The search takes the leftmost match and the longest run of digits:
  "Scale 1:500" contains "Scale 1:50" and gives 1/500, and in "1:100 Scale 1:50" the earlier
  ratio wins and gives 1/100.
\<close>

theorem scale_1_50_inside_other_ratio:
  "find_numeric_scale_text (''Scale 1:50'' @ ''0'') = Inr (Some (1 / 500))
   \<and> find_numeric_scale_text (''1:100 '' @ ''Scale 1:50'') = Inr (Some (1 / 100))
   \<and> (1 / 500 :: real) \<noteq> 0.02 \<and> (1 / 100 :: real) \<noteq> 0.02"
  by code_simp

text \<open>
  Claim C4, amended: \<open>find_numeric_scale_text\<close> tries the notations in priority order and the
  first pattern that matches decides; later, conflicting notations are not reconciled.
  \<^item> Ratio: "1", optional white space, a colon, optional white space and the digits N, after
    a prefix without the character "1" and not followed by a further digit, give 1/N,
    whatever comes after.
  \<^item> Feet: in a text without a colon, digits A, "/", digits B, a quote sign, optional white
    space, "=", optional white space, digits F and a quote sign, after a prefix without
    digits, give (A/B)/(12 * F), whatever comes after.
  \<^item> Fraction: in a text without a colon and without "=", "1", optional white space, "/",
    optional white space and the digits N, after a prefix without "1" and not followed by
    a further digit, give 1/N.
  \<^item> A text without ":", "=" and "/" gives the explicit no-scale result.
  \<^item> In terms of the searches: a ratio match decides; without one a feet match decides;
    without either a fraction match decides; without any the result is no scale.
  \<^item> A text pre "Scale 1:50" post gives 0.02 whenever the ratio pattern finds nothing in
    pre and post does not begin with a digit.
  Each factor is returned when its divisors are not zero.
\<close>

theorem find_numeric_scale_text_priority:
  "(CHR ''1'' \<notin> set pre \<and> list_all space ws1 \<and> list_all space ws2
      \<and> ds \<noteq> [] \<and> list_all digit ds \<and> (post = [] \<or> \<not> digit (hd post)) \<and> float_of ds \<noteq> 0
    \<longrightarrow> find_numeric_scale_text (pre @ ''1'' @ ws1 @ '':'' @ ws2 @ ds @ post)
          = Inr (Some (1 / float_of ds)))
   \<and> (recognized = pre @ A @ ''/'' @ B @ [q1] @ ws1 @ ''='' @ ws2 @ F @ [q2] @ post
      \<and> CHR '':'' \<notin> set recognized \<and> list_all (\<lambda>c. \<not> digit c) pre
      \<and> A \<noteq> [] \<and> list_all digit A \<and> B \<noteq> [] \<and> list_all digit B \<and> F \<noteq> [] \<and> list_all digit F
      \<and> quote q1 \<and> quote q2 \<and> list_all space ws1 \<and> list_all space ws2
      \<and> float_of A \<noteq> 0 \<and> float_of B \<noteq> 0 \<and> float_of F \<noteq> 0
    \<longrightarrow> find_numeric_scale_text recognized
          = Inr (Some ((float_of A / float_of B) / (12 * float_of F))))
   \<and> (recognized = pre @ ''1'' @ ws1 @ ''/'' @ ws2 @ ds @ post
      \<and> CHR '':'' \<notin> set recognized \<and> CHR ''='' \<notin> set recognized
      \<and> CHR ''1'' \<notin> set pre \<and> list_all space ws1 \<and> list_all space ws2
      \<and> ds \<noteq> [] \<and> list_all digit ds \<and> (post = [] \<or> \<not> digit (hd post)) \<and> float_of ds \<noteq> 0
    \<longrightarrow> find_numeric_scale_text recognized = Inr (Some (1 / float_of ds)))
   \<and> (CHR '':'' \<notin> set recognized \<and> CHR ''='' \<notin> set recognized \<and> CHR ''/'' \<notin> set recognized
    \<longrightarrow> find_numeric_scale_text recognized = Inr None)
   \<and> (search ratio_pattern recognized = Some [n] \<and> float_of n \<noteq> 0
    \<longrightarrow> find_numeric_scale_text recognized = Inr (Some (1 / float_of n)))
   \<and> (search ratio_pattern recognized = None \<and> search feet_pattern recognized = Some [a, b, f]
      \<and> float_of a \<noteq> 0 \<and> float_of b \<noteq> 0 \<and> float_of f \<noteq> 0
    \<longrightarrow> find_numeric_scale_text recognized = Inr (Some ((float_of a / float_of b) / (12 * float_of f))))
   \<and> (search ratio_pattern recognized = None \<and> search feet_pattern recognized = None
      \<and> search fraction_pattern recognized = Some [n] \<and> float_of n \<noteq> 0
    \<longrightarrow> find_numeric_scale_text recognized = Inr (Some (1 / float_of n)))
   \<and> (search ratio_pattern recognized = None \<and> search feet_pattern recognized = None
      \<and> search fraction_pattern recognized = None
    \<longrightarrow> find_numeric_scale_text recognized = Inr None)
   \<and> (search ratio_pattern pre = None \<and> (post = [] \<or> \<not> digit (hd post))
    \<longrightarrow> find_numeric_scale_text (pre @ ''Scale 1:50'' @ post) = Inr (Some 0.02))"
proof (intro conjI impI)
  assume a: "CHR ''1'' \<notin> set pre \<and> list_all space ws1 \<and> list_all space ws2
      \<and> ds \<noteq> [] \<and> list_all digit ds \<and> (post = [] \<or> \<not> digit (hd post)) \<and> float_of ds \<noteq> 0"
  then have "search ratio_pattern (pre @ ''1'' @ ws1 @ '':'' @ ws2 @ ds @ post) = Some [ds]"
    by (intro search_ratio_shape) (auto simp: list_all_iff)
  then show "find_numeric_scale_text (pre @ ''1'' @ ws1 @ '':'' @ ws2 @ ds @ post)
            = Inr (Some (1 / float_of ds))"
    using a by (simp add: scale_from_groups fdiv_def)
next
  assume a: "recognized = pre @ A @ ''/'' @ B @ [q1] @ ws1 @ ''='' @ ws2 @ F @ [q2] @ post
      \<and> CHR '':'' \<notin> set recognized \<and> list_all (\<lambda>c. \<not> digit c) pre
      \<and> A \<noteq> [] \<and> list_all digit A \<and> B \<noteq> [] \<and> list_all digit B \<and> F \<noteq> [] \<and> list_all digit F
      \<and> quote q1 \<and> quote q2 \<and> list_all space ws1 \<and> list_all space ws2
      \<and> float_of A \<noteq> 0 \<and> float_of B \<noteq> 0 \<and> float_of F \<noteq> 0"
  then have "search feet_pattern (pre @ A @ ''/'' @ B @ [q1] @ ws1 @ ''='' @ ws2 @ F @ [q2] @ post)
           = Some [A, B, F]"
    by (intro search_feet_shape) (auto simp: list_all_iff)
  then have "search feet_pattern recognized = Some [A, B, F]" using a by blast
  moreover have "search ratio_pattern recognized = None"
    using a by (intro search_ratio_needs_colon) blast
  ultimately show "find_numeric_scale_text recognized
          = Inr (Some ((float_of A / float_of B) / (12 * float_of F)))"
    using a by (simp add: scale_from_groups)
next
  assume a: "recognized = pre @ ''1'' @ ws1 @ ''/'' @ ws2 @ ds @ post
      \<and> CHR '':'' \<notin> set recognized \<and> CHR ''='' \<notin> set recognized
      \<and> CHR ''1'' \<notin> set pre \<and> list_all space ws1 \<and> list_all space ws2
      \<and> ds \<noteq> [] \<and> list_all digit ds \<and> (post = [] \<or> \<not> digit (hd post)) \<and> float_of ds \<noteq> 0"
  then have "search fraction_pattern (pre @ ''1'' @ ws1 @ ''/'' @ ws2 @ ds @ post) = Some [ds]"
    by (intro search_fraction_shape) (auto simp: list_all_iff)
  then have "search fraction_pattern recognized = Some [ds]" using a by blast
  moreover have "search ratio_pattern recognized = None"
    using a by (intro search_ratio_needs_colon) blast
  moreover have "search feet_pattern recognized = None"
    using a by (intro search_feet_needs_equals) blast
  ultimately show "find_numeric_scale_text recognized = Inr (Some (1 / float_of ds))"
    using a by (simp add: scale_from_groups fdiv_def)
next
  assume a: "CHR '':'' \<notin> set recognized \<and> CHR ''='' \<notin> set recognized \<and> CHR ''/'' \<notin> set recognized"
  then show "find_numeric_scale_text recognized = Inr None"
    by (simp add: scale_from_groups search_ratio_needs_colon search_feet_needs_equals
          search_fraction_needs_slash)
next
  assume "search ratio_pattern recognized = Some [n] \<and> float_of n \<noteq> 0"
  then show "find_numeric_scale_text recognized = Inr (Some (1 / float_of n))"
    by (simp add: scale_from_groups fdiv_def)
next
  assume "search ratio_pattern recognized = None \<and> search feet_pattern recognized = Some [a, b, f]
        \<and> float_of a \<noteq> 0 \<and> float_of b \<noteq> 0 \<and> float_of f \<noteq> 0"
  then show "find_numeric_scale_text recognized = Inr (Some ((float_of a / float_of b) / (12 * float_of f)))"
    by (simp add: scale_from_groups)
next
  assume "search ratio_pattern recognized = None \<and> search feet_pattern recognized = None
        \<and> search fraction_pattern recognized = Some [n] \<and> float_of n \<noteq> 0"
  then show "find_numeric_scale_text recognized = Inr (Some (1 / float_of n))"
    by (simp add: scale_from_groups fdiv_def)
next
  assume "search ratio_pattern recognized = None \<and> search feet_pattern recognized = None
        \<and> search fraction_pattern recognized = None"
  then show "find_numeric_scale_text recognized = Inr None"
    by (simp add: scale_from_groups)
next
  assume a: "search ratio_pattern pre = None \<and> (post = [] \<or> \<not> digit (hd post))"
  have "search ratio_pattern (pre @ CHR ''S'' # (''cale 1:50'' @ post))
          = search ratio_pattern (CHR ''S'' # (''cale 1:50'' @ post))"
    using a by (intro search_ratio_skip) (auto simp: space_def digit_def one_of_def)
  also have "\<dots> = Some [''50'']" using search_scale_1_50 [of post] a by simp
  finally have "search ratio_pattern (pre @ ''Scale 1:50'' @ post) = Some [''50'']" by simp
  moreover have "float_of ''50'' = 50" by (simp add: float_of_def nat_of_digits_def digit_val_def)
  ultimately show "find_numeric_scale_text (pre @ ''Scale 1:50'' @ post) = Inr (Some 0.02)"
    by (simp add: scale_from_groups fdiv_def)
qed

text \<open>The theorem at a ratio followed by a conflicting one, at a feet notation followed by a
  bare fraction, at a bare fraction, at a text without any notation, at the three searches,
  and at "Scale 1:50" between other words.\<close>

theorem find_numeric_scale_text_priority_witness:
  "find_numeric_scale_text (''Plan '' @ ''1'' @ '' '' @ '':'' @ [] @ ''100'' @ '' and 1:50'') = Inr (Some (1 / 100))
   \<and> find_numeric_scale_text (''SCALE '' @ ''1'' @ ''/'' @ ''4'' @ [CHR 0x22] @ '' '' @ ''='' @ '' '' @ ''1'' @ [CHR 0x27] @ '' or 1/50'')
       = Inr (Some (1 / 48))
   \<and> find_numeric_scale_text (''Scale '' @ ''1'' @ '' '' @ ''/'' @ '' '' @ ''200'' @ []) = Inr (Some (1 / 200))
   \<and> find_numeric_scale_text ''Ground floor'' = Inr None
   \<and> search ratio_pattern ''Scale 1:50'' = Some [''50''] \<and> float_of ''50'' \<noteq> 0
   \<and> find_numeric_scale_text ''Scale 1:50'' = Inr (Some (1 / 50))
   \<and> search ratio_pattern ''1/8in = 1ft'' = None \<and> search feet_pattern ''1/8in = 1ft'' = None
   \<and> search fraction_pattern ''1/8in = 1ft'' = Some [''8'']
   \<and> find_numeric_scale_text ''1/8in = 1ft'' = Inr (Some (1 / 8))
   \<and> search ratio_pattern ''Sheet 12 '' = None
   \<and> find_numeric_scale_text (''Sheet 12 '' @ ''Scale 1:50'' @ '' (A3)'') = Inr (Some 0.02)"
proof -
  have f: "float_of ''100'' = 100" "float_of ''1'' = 1" "float_of ''4'' = 4" "float_of ''200'' = 200"
    "float_of ''50'' = 50" "float_of ''8'' = 8"
    by (simp_all add: float_of_def nat_of_digits_def digit_val_def)
  have c: "digit CHR ''0''" "digit CHR ''1''" "digit CHR ''2''" "digit CHR ''4''" "space CHR '' ''"
    "quote CHR 0x22" "quote CHR 0x27" "\<not> digit CHR '' ''" "\<not> digit CHR ''S''" "\<not> digit CHR ''C''"
    "\<not> digit CHR ''A''" "\<not> digit CHR ''L''" "\<not> digit CHR ''E''"
    by (simp_all add: digit_def space_def quote_def one_of_def)
  have r1: "find_numeric_scale_text (''Plan '' @ ''1'' @ '' '' @ '':'' @ [] @ ''100'' @ '' and 1:50'') = Inr (Some (1 / 100))"
    using find_numeric_scale_text_priority [where pre = "''Plan ''" and ?ws1.0 = "'' ''" and ?ws2.0 = "[]" and ds = "''100''" and post = "'' and 1:50''"]
    by (simp add: f c)
  have r2: "find_numeric_scale_text (''SCALE '' @ ''1'' @ ''/'' @ ''4'' @ [CHR 0x22] @ '' '' @ ''='' @ '' '' @ ''1'' @ [CHR 0x27] @ '' or 1/50'')
       = Inr (Some (1 / 48))"
    using find_numeric_scale_text_priority [where recognized = "''SCALE '' @ ''1'' @ ''/'' @ ''4'' @ [CHR 0x22] @ '' '' @ ''='' @ '' '' @ ''1'' @ [CHR 0x27] @ '' or 1/50''"
        and pre = "''SCALE ''" and A = "''1''" and B = "''4''" and ?q1.0 = "CHR 0x22" and ?ws1.0 = "'' ''"
        and ?ws2.0 = "'' ''" and F = "''1''" and ?q2.0 = "CHR 0x27" and post = "'' or 1/50''"]
    by (simp add: f c)
  have r3: "find_numeric_scale_text (''Scale '' @ ''1'' @ '' '' @ ''/'' @ '' '' @ ''200'' @ []) = Inr (Some (1 / 200))"
    using find_numeric_scale_text_priority [where recognized = "''Scale '' @ ''1'' @ '' '' @ ''/'' @ '' '' @ ''200'' @ []"
        and pre = "''Scale ''" and ?ws1.0 = "'' ''" and ?ws2.0 = "'' ''" and ds = "''200''" and post = "[]"]
    by (simp add: f c)
  have r4: "find_numeric_scale_text ''Ground floor'' = Inr None"
    using find_numeric_scale_text_priority [where recognized = "''Ground floor''"] by simp
  have e1: "search ratio_pattern ''Scale 1:50'' = Some [''50'']"
    and e3: "search ratio_pattern ''1/8in = 1ft'' = None" "search feet_pattern ''1/8in = 1ft'' = None"
    "search fraction_pattern ''1/8in = 1ft'' = Some [''8'']"
    and e6: "search ratio_pattern ''Sheet 12 '' = None"
    by code_simp+
  have r5: "find_numeric_scale_text ''Scale 1:50'' = Inr (Some (1 / 50))"
    using find_numeric_scale_text_priority [where recognized = "''Scale 1:50''" and n = "''50''"] e1 by (simp add: f)
  have r6: "find_numeric_scale_text ''1/8in = 1ft'' = Inr (Some (1 / 8))"
    using find_numeric_scale_text_priority [where recognized = "''1/8in = 1ft''" and n = "''8''"] e3 by (simp add: f)
  have r7: "find_numeric_scale_text (''Sheet 12 '' @ ''Scale 1:50'' @ '' (A3)'') = Inr (Some 0.02)"
    using find_numeric_scale_text_priority [where pre = "''Sheet 12 ''" and post = "'' (A3)''"] e6 by (simp add: c)
  from r1 r2 r3 r4 e1 r5 e3 r6 e6 r7 f show ?thesis by simp
qed

text \<open>
  Claim C9: the divisions of \<open>find_numeric_scale_text\<close> are not guarded against zero. A ratio
  with N = 0 ("1:0", "Scale 1:00"), a feet notation with F = 0 or with a zero denominator,
  and the bare fraction "1/0" all raise a division by zero instead of returning the
  no-scale result.
\<close>

theorem find_numeric_scale_text_divides_by_zero:
  "find_numeric_scale_text ''1:0'' = Inl ZeroDivisionError
   \<and> find_numeric_scale_text ''Scale 1:00'' = Inl ZeroDivisionError
   \<and> find_numeric_scale_text (''1/4'' @ [CHR 0x22] @ '' = 0'' @ [CHR 0x27]) = Inl ZeroDivisionError
   \<and> find_numeric_scale_text (''3/0'' @ [CHR 0x22] @ '' = 1'' @ [CHR 0x27]) = Inl ZeroDivisionError
   \<and> find_numeric_scale_text ''1/0'' = Inl ZeroDivisionError"
  by code_simp

section \<open>Labels of the scale bar\<close>

text \<open>
  Claim C5 says that labels in mm, cm, m, ft and inch are all recognised and converted, mm
  unchanged. In the label pattern the alternative m stands before mm, so the label "500 mm"
  is captured with the unit m and counted as 500000 mm, and no alternative matches "in" or
  the inch sign although \<open>convert_to_mm\<close> knows both. On a page whose longest horizontal
  line is 100 pixels long with the band text "0 mm 500 mm" the code returns 5000 mm per
  pixel where the labels span 500 mm, that is 5 mm per pixel; with the labels "0 in 10 in"
  it finds no label at all.
\<close>

theorem scale_bar_labels_misread:
  "findall label_pattern ''0 mm 500 mm'' = [[''0'', ''m''], [''500'', ''m'']]
   \<and> find_graphic_scale_bar
        \<lparr>gray_rows = 800, gray_cols = 1000, page_text = ''Ground floor'',
         hough_segments = Some [(100, 700, 200, 700)],
         band_text = (\<lambda>y h x w. ''0 mm 500 mm'')\<rparr> = Inr (Some 5000)
   \<and> convert_to_mm 500 ''mm'' = Some 500 \<and> \<bar>500 - 0\<bar> / 100 = (5 :: real)
   \<and> findall label_pattern ''0 in 10 in'' = []
   \<and> find_graphic_scale_bar
        \<lparr>gray_rows = 800, gray_cols = 1000, page_text = ''Ground floor'',
         hough_segments = Some [(100, 700, 200, 700)],
         band_text = (\<lambda>y h x w. ''0 in 10 in'')\<rparr> = Inr None
   \<and> convert_to_mm 10 ''in'' = Some 254"
  by code_simp

section \<open>Pages without a scale\<close>






section \<open>Merging template hits\<close>








section \<open>Deskewing\<close>

text \<open>Without a qualifying line the image comes back as it is, with angle 0.\<close>

lemma deskew_image_no_qualifying_lines:
  "qualifying_angles ls = [] \<Longrightarrow> deskew_image warp_affine (Some ls) height width img = (img, 0)"
  by (simp add: deskew_image_def Let_def)

lemma argmax_from_skip:
  "\<forall>x\<in>set xs. x \<le> bv \<Longrightarrow> argmax_from b bv i (xs @ ys) = argmax_from b bv (i + length xs) ys"
  by (induction xs arbitrary: i) auto

lemma qualifying_example:
  "qualifying_angles [(300, pi / 2), (500, pi / 2), (200, 0)] = [pi / 2, pi / 2, 0]"
  by (simp add: qualifying_angles_def)

lemma hist_range_example: "hist_range [pi / 2, pi / 2, 0] = (0, pi / 2)"
  by (simp add: hist_range_def Let_def)

lemma bin_index_example:
  "bin_index (0, pi / 2) 180 (pi / 2) = 179" "bin_index (0, pi / 2) 180 0 = 0"
  by (simp_all add: bin_index_def Let_def)

lemma histogram_example:
  "histogram [pi / 2, pi / 2, 0] 180 = 1 # replicate 178 0 @ [2]"
proof -
  have "histogram [pi / 2, pi / 2, 0] 180
          = map (\<lambda>b. (if b = 179 then 2 else 0) + (if b = 0 then 1 else 0)) [0 ..< 180]"
    unfolding histogram_def hist_range_example
    by (auto simp: bin_index_example)
  also have "[0 ..< 180] = 0 # [1 ..< 179] @ [179 :: nat]"
    by (simp add: upt_rec [of 0 180] upt_Suc_append [symmetric] del: upt_Suc)
  also have "map (\<lambda>b. (if b = 179 then 2 else 0) + (if b = 0 then 1 else 0)) (0 # [1 ..< 179] @ [179 :: nat])
               = 1 # map (\<lambda>b. 0) [1 ..< 179] @ [2 :: nat]"
    by simp
  also have "map (\<lambda>b. 0 :: nat) [1 ..< 179] = replicate 178 0"
    by (simp add: map_replicate_const)
  finally show ?thesis .
qed

lemma argmax_example: "argmax (1 # replicate 178 0 @ [2]) = 179"
proof -
  have "argmax_from 0 1 1 (replicate 178 0 @ [2]) = argmax_from 0 1 (1 + length (replicate 178 (0 :: nat))) [2]"
    by (rule argmax_from_skip) simp
  then show ?thesis by (simp add: argmax_def)
qed

lemma rotation_angle_example: "rotation_angle [pi / 2, pi / 2, 0] = - 89"
proof -
  have "argmax (histogram [pi / 2, pi / 2, 0] 180) = 179"
    by (simp only: histogram_example argmax_example)
  then show ?thesis
    unfolding rotation_angle_def Let_def by (simp add: degrees_def)
qed


text \<open>
  Claim C7 takes the applied angle from the modal one-degree bin of the qualifying angles.
  The code builds its 180 bins between the least and the greatest qualifying angle and then
  reads the index of the fullest bin as degrees. On an axis-aligned page with two
  horizontal lines (theta = pi/2) and one vertical line (theta = 0) the bins are half a
  degree wide, the fullest one is the last, index 179, and the page is rotated by
  90 - 179 = -89 degrees, although its dominant skew is zero.
\<close>

theorem deskew_rotates_axis_aligned_page:
  "snd (deskew_image warp_affine (Some [(300, pi / 2), (500, pi / 2), (200, 0)]) 800 1000 img) = - 89"
  by (simp add: deskew_image_def qualifying_example rotation_angle_example Let_def)

end
